theory Spec2Isabelle
  imports Main
begin

section \<open>Strings\<close>

text \<open>
  A JavaScript string is modelled as a \<^typ>\<open>string\<close>: a list of code units, each below 256
  (the Latin-1 range). \<open>startsWith\<close>, \<open>endsWith\<close> and \<open>includes\<close> are the methods of
  \<open>String.prototype\<close> with the same names.
\<close>

fun startsWith :: "string \<Rightarrow> string \<Rightarrow> bool" where
  "startsWith s [] = True"
| "startsWith [] (p # ps) = False"
| "startsWith (c # cs) (p # ps) = (c = p \<and> startsWith cs ps)"

definition endsWith :: "string \<Rightarrow> string \<Rightarrow> bool" where
  "endsWith s p = startsWith (rev s) (rev p)"

fun includesStr :: "string \<Rightarrow> string \<Rightarrow> bool" where
  "includesStr [] p = (p = [])"
| "includesStr (c # cs) p = (startsWith (c # cs) p \<or> includesStr cs p)"

text \<open>
  \<open>toLowerCase\<close> on the Latin-1 range: the letters A-Z, and the accented capitals
  U+00C0 to U+00DE apart from the multiplication sign U+00D7, move up by 32.
\<close>

definition toLowerChar :: "char \<Rightarrow> char" where
  "toLowerChar c =
     (let n = (of_char c :: nat)
      in if (65 \<le> n \<and> n \<le> 90) \<or> (192 \<le> n \<and> n \<le> 222 \<and> n \<noteq> 215)
         then char_of (n + 32) else c)"

definition toLowerCase :: "string \<Rightarrow> string" where
  "toLowerCase s = map toLowerChar s"

text \<open>\<open>s.replace(/c/g, r)\<close> for a single character \<open>c\<close> and a replacement without \<open>$\<close>.\<close>

definition replaceAll :: "char \<Rightarrow> string \<Rightarrow> string \<Rightarrow> string" where
  "replaceAll c r s = concat (map (\<lambda>x. if x = c then r else [x]) s)"

section \<open>Regular expressions\<close>

text \<open>
  \<open>RegExp\<close> belongs to the language, not to the program. A fragment of it (no flags) is
  computed here: the assertions \<open>^\<close> and \<open>$\<close>, the wildcard \<open>.\<close> (any character but a
  line terminator), literal characters (among them \<open>]\<close> and \<open>}\<close>), a backslash before a
  syntax character or a slash, and the quantifiers \<open>*\<close> and \<open>+\<close> on a single character
  or wildcard. A quantifier with nothing to repeat, or a backslash at the end, makes
  \<open>new RegExp\<close> throw a SyntaxError. For a source that uses anything else (groups,
  classes, alternation, braces, \<open>?\<close>, the other escapes) the engine is a parameter of
  the world, \<open>nativeRegExp\<close>: \<open>None\<close> when \<open>new RegExp\<close> throws a SyntaxError on that
  source, otherwise the \<open>test\<close> function of the expression it builds.
\<close>

datatype atom = Lit char | AnyChar

datatype rterm = Bol | Eol | One atom | Star atom | Plus atom

datatype regexp = Compiled "rterm list" | Native "string \<Rightarrow> bool"

text \<open>
  The errors \<open>findFiles\<close> can throw: its own timeout, the SyntaxError of \<open>new RegExp\<close>
  and the RangeError of \<open>toISOString\<close>.
\<close>

datatype error = SearchTimedOut | RegExpSyntaxError | RangeError

definition syntaxChar :: "char \<Rightarrow> bool" where
  "syntaxChar c = (c \<in> set ''^$.*+?()[]{}|'' \<or> c = CHR 0x5C)"

definition lineTerminator :: "char \<Rightarrow> bool" where
  "lineTerminator c = (c = CHR 0x0A \<or> c = CHR 0x0D)"

fun atomMatches :: "atom \<Rightarrow> char \<Rightarrow> bool" where
  "atomMatches (Lit l) c = (c = l)"
| "atomMatches AnyChar c = (\<not> lineTerminator c)"

text \<open>
  What the parser finds: the terms of a source inside the fragment, a SyntaxError, or a
  source beyond the fragment.
\<close>

datatype parsed = Terms "rterm list" | Rejected | Beyond

fun withTerms :: "rterm list \<Rightarrow> parsed \<Rightarrow> parsed" where
  "withTerms ts (Terms us) = Terms (ts @ us)"
| "withTerms ts Rejected = Rejected"
| "withTerms ts Beyond = Beyond"

text \<open>
  The parser reads the source from left to right. \<open>pend\<close> is the atom just read, waiting
  for a quantifier; \<open>emit\<close> makes it a term when no quantifier follows.
\<close>

fun emit :: "atom option \<Rightarrow> rterm list" where
  "emit None = []"
| "emit (Some a) = [One a]"

fun parseRegExp :: "atom option \<Rightarrow> string \<Rightarrow> parsed" where
  "parseRegExp pend [] = Terms (emit pend)"
| "parseRegExp pend (c # cs) =
     (if c = CHR ''*'' \<or> c = CHR ''+'' then
        (case pend of
           None \<Rightarrow> Rejected
         | Some a \<Rightarrow>
             withTerms [if c = CHR ''*'' then Star a else Plus a] (parseRegExp None cs))
      else if c \<in> set ''?()[{|'' then Beyond
      else withTerms (emit pend)
        (if c = CHR ''^'' then withTerms [Bol] (parseRegExp None cs)
         else if c = CHR ''$'' then withTerms [Eol] (parseRegExp None cs)
         else if c = CHR 0x5C then
           (case cs of
              [] \<Rightarrow> Rejected
            | d # ds \<Rightarrow>
                if syntaxChar d \<or> d = CHR ''/'' then parseRegExp (Some (Lit d)) ds
                else Beyond)
         else parseRegExp (Some (if c = CHR ''.'' then AnyChar else Lit c)) cs))"

text \<open>\<open>new RegExp(source)\<close>, with the engine \<open>native\<close> for what lies beyond the fragment.\<close>

definition newRegExp :: "(string \<Rightarrow> (string \<Rightarrow> bool) option) \<Rightarrow> string \<Rightarrow> error + regexp" where
  "newRegExp native source =
     (case parseRegExp None source of
        Terms ts \<Rightarrow> Inr (Compiled ts)
      | Rejected \<Rightarrow> Inl RegExpSyntaxError
      | Beyond \<Rightarrow>
          (case native source of
             None \<Rightarrow> Inl RegExpSyntaxError
           | Some t \<Rightarrow> Inr (Native t)))"

text \<open>
  \<open>matchHere ts b s\<close>: the terms \<open>ts\<close> match a prefix of \<open>s\<close>; \<open>b\<close> says that \<open>s\<close> is the
  whole input (the position is 0). \<open>regexTest\<close> is \<open>RegExp.prototype.test\<close> without the
  \<open>g\<close> and \<open>y\<close> flags: a match may start at any position.
\<close>

fun matchHere :: "rterm list \<Rightarrow> bool \<Rightarrow> string \<Rightarrow> bool" where
  "matchHere [] b s = True"
| "matchHere (Bol # ts) b s = (b \<and> matchHere ts b s)"
| "matchHere (Eol # ts) b s = (s = [] \<and> matchHere ts b s)"
| "matchHere (One a # ts) b [] = False"
| "matchHere (One a # ts) b (c # cs) = (atomMatches a c \<and> matchHere ts False cs)"
| "matchHere (Star a # ts) b [] = matchHere ts b []"
| "matchHere (Star a # ts) b (c # cs) =
     (matchHere ts b (c # cs) \<or> (atomMatches a c \<and> matchHere (Star a # ts) False cs))"
| "matchHere (Plus a # ts) b [] = False"
| "matchHere (Plus a # ts) b (c # cs) = (atomMatches a c \<and> matchHere (Star a # ts) False cs)"

fun searchFrom :: "rterm list \<Rightarrow> bool \<Rightarrow> string \<Rightarrow> bool" where
  "searchFrom ts b [] = matchHere ts b []"
| "searchFrom ts b (c # cs) = (matchHere ts b (c # cs) \<or> searchFrom ts False cs)"

fun regexTest :: "regexp \<Rightarrow> string \<Rightarrow> bool" where
  "regexTest (Compiled ts) s = searchFrom ts True s"
| "regexTest (Native t) s = t s"

section \<open>The search: data\<close>

text \<open>
  A \<open>Date\<close> object holds a time value in milliseconds, or NaN (an invalid date, as
  \<open>new Date\<close> gives for an unreadable string or for a time outside the range of dates).
  \<open>a < b\<close> and \<open>a > b\<close> on dates compare the time values, and are false when one of them
  is NaN. \<open>toISOString\<close> throws a RangeError on an invalid date; its result is
  represented by the time value it renders.
\<close>

datatype date = Date int | InvalidDate

fun dateLess :: "date \<Rightarrow> date \<Rightarrow> bool" where
  "dateLess (Date a) (Date b) = (a < b)"
| "dateLess _ _ = False"

definition dateGreater :: "date \<Rightarrow> date \<Rightarrow> bool" where
  "dateGreater a b = dateLess b a"

fun toISOString :: "date \<Rightarrow> error + int" where
  "toISOString (Date t) = Inr t"
| "toISOString InvalidDate = Inl RangeError"

text \<open>What \<open>fs.promises.stat\<close> returns.\<close>

record stats =
  isDirectory :: bool
  isFile :: bool
  sizeBytes :: int
  birthtime :: date
  mtime :: date

text \<open>
  The world \<open>findFiles\<close> runs in: the file system as \<open>readdir\<close>, \<open>stat\<close> and \<open>readFile\<close>
  see it (\<open>None\<close> is a rejected promise), \<open>mime.lookup\<close> (\<open>None\<close> is its \<open>false\<close>),
  \<open>path.join\<close>, the clock (\<open>now k\<close> is what the \<open>k\<close>-th call of \<open>Date.now()\<close> returns,
  counting from 0) and the RegExp engine beyond the computed fragment. The file system
  does not change during one search.
\<close>

record env =
  readdir :: "string \<Rightarrow> string list option"
  stat :: "string \<Rightarrow> stats option"
  readFile :: "string \<Rightarrow> string option"
  mimeLookup :: "string \<Rightarrow> string option"
  pathJoin :: "string \<Rightarrow> string \<Rightarrow> string"
  now :: "nat \<Rightarrow> int"
  nativeRegExp :: "string \<Rightarrow> (string \<Rightarrow> bool) option"

text \<open>
  The argument of \<open>findFiles\<close>. \<open>None\<close> is \<open>undefined\<close>. Sizes and limits are integers.
\<close>

record config =
  startDirs :: "string list"
  filename :: "string option"
  extension :: "string option"
  minSize :: "int option"
  maxSize :: "int option"
  createdAfter :: "date option"
  createdBefore :: "date option"
  modifiedAfter :: "date option"
  modifiedBefore :: "date option"
  recursive :: bool
  caseSensitive :: bool
  contentSearch :: "string option"
  fileType :: "string option"
  maxResults :: "int option"
  timeoutMs :: "int option"

text \<open>
  An element of \<open>results\<close>. \<open>created\<close> and \<open>modified\<close> are the time values that the
  ISO-8601 strings of the source render.
\<close>

record found =
  foundPath :: string
  foundSize :: int
  created :: int
  modified :: int
  foundType :: string

text \<open>
  Truthiness of an optional string: \<open>undefined\<close> and the empty string are falsy. An
  optional number is falsy when it is \<open>undefined\<close> or 0, which the size filters spell
  out themselves; a \<open>Date\<close> object is always truthy.
\<close>

fun truthyString :: "string option \<Rightarrow> bool" where
  "truthyString None = False"
| "truthyString (Some s) = (s \<noteq> [])"

text \<open>The defaults of the destructured parameters.\<close>

fun maxResultsOf :: "config \<Rightarrow> int" where
  "maxResultsOf cfg = (case maxResults cfg of None \<Rightarrow> 1000 | Some n \<Rightarrow> n)"

fun timeoutMsOf :: "config \<Rightarrow> int" where
  "timeoutMsOf cfg = (case timeoutMs cfg of None \<Rightarrow> 30000 | Some n \<Rightarrow> n)"

section \<open>The wildcard matcher\<close>

text \<open>
  \<open>wildcardToRegex\<close> of server.js: three global replacements on the pattern, then
  \<open>new RegExp\<close> on the result between \<open>^\<close> and \<open>$\<close>, in the world \<open>e\<close>.
\<close>

definition regexPattern :: "string \<Rightarrow> string" where
  "regexPattern pattern =
     replaceAll (CHR ''?'') ''.''
       (replaceAll (CHR ''*'') ''.*''
         (replaceAll (CHR ''.'') [CHR 0x5C, CHR ''.''] pattern))"

definition wildcardToRegex :: "env \<Rightarrow> string \<Rightarrow> error + regexp" where
  "wildcardToRegex e pattern =
     newRegExp (nativeRegExp e) (''^'' @ regexPattern pattern @ ''$'')"

section \<open>The search: filters\<close>

text \<open>
  \<open>filenameRegex\<close> (line 56): \<open>null\<close> when \<open>filename\<close> is falsy, else the compiled pattern;
  \<open>new RegExp\<close> may throw.
\<close>

definition filenameRegex :: "env \<Rightarrow> config \<Rightarrow> error + regexp option" where
  "filenameRegex e cfg =
     (case filename cfg of
        None \<Rightarrow> Inr None
      | Some f \<Rightarrow> if f = [] then Inr None else map_sum id Some (wildcardToRegex e f))"

text \<open>
  Each \<open>skip...\<close> is the condition of one \<open>continue\<close> of lines 92 to 124, as a function
  of the parameters and file attributes that the line reads.
\<close>

definition skipName :: "bool \<Rightarrow> string option \<Rightarrow> regexp option \<Rightarrow> string \<Rightarrow> bool" where
  "skipName caseSens fname rx fileName =
     (case rx of
        None \<Rightarrow> False
      | Some r \<Rightarrow>
          (let testName = (if caseSens then fileName else toLowerCase fileName);
               testPattern = (case fname of
                                None \<Rightarrow> []
                              | Some f \<Rightarrow> if caseSens then f else toLowerCase f)
           in \<not> regexTest r testName \<and> \<not> includesStr testName testPattern))"

definition skipExtension :: "string option \<Rightarrow> string \<Rightarrow> bool" where
  "skipExtension ext fileName =
     (case ext of
        None \<Rightarrow> False
      | Some x \<Rightarrow> x \<noteq> [] \<and> \<not> endsWith fileName (CHR ''.'' # x))"

definition skipMinSize :: "int option \<Rightarrow> int \<Rightarrow> bool" where
  "skipMinSize bound sz = (case bound of None \<Rightarrow> False | Some n \<Rightarrow> n \<noteq> 0 \<and> sz < n)"

definition skipMaxSize :: "int option \<Rightarrow> int \<Rightarrow> bool" where
  "skipMaxSize bound sz = (case bound of None \<Rightarrow> False | Some n \<Rightarrow> n \<noteq> 0 \<and> sz > n)"

text \<open>Lines 106 and 108 (\<open>createdAfter\<close>, \<open>modifiedAfter\<close>): \<open>bound && t < bound\<close>.\<close>

definition skipAfter :: "date option \<Rightarrow> date \<Rightarrow> bool" where
  "skipAfter bound t = (case bound of None \<Rightarrow> False | Some d \<Rightarrow> dateLess t d)"

text \<open>Lines 107 and 109 (\<open>createdBefore\<close>, \<open>modifiedBefore\<close>): \<open>bound && t > bound\<close>.\<close>

definition skipBefore :: "date option \<Rightarrow> date \<Rightarrow> bool" where
  "skipBefore bound t = (case bound of None \<Rightarrow> False | Some d \<Rightarrow> dateGreater t d)"

definition skipFileType :: "string option \<Rightarrow> string \<Rightarrow> bool" where
  "skipFileType ftype mimeType =
     (case ftype of None \<Rightarrow> False | Some t \<Rightarrow> t \<noteq> [] \<and> \<not> startsWith mimeType t)"

text \<open>
  Lines 115 to 123: \<open>contentMatch\<close> starts as true and is only recomputed for a file whose
  type starts with \<open>text/\<close>; a failed read makes it false.
\<close>

definition contentMatch :: "env \<Rightarrow> string option \<Rightarrow> string \<Rightarrow> string \<Rightarrow> bool" where
  "contentMatch e search filePath mimeType =
     (if truthyString search \<and> startsWith mimeType ''text/'' then
        (case readFile e filePath of
           None \<Rightarrow> False
         | Some content \<Rightarrow> includesStr content (case search of None \<Rightarrow> [] | Some x \<Rightarrow> x))
      else True)"

definition skipContent :: "env \<Rightarrow> string option \<Rightarrow> string \<Rightarrow> string \<Rightarrow> bool" where
  "skipContent e search filePath mimeType =
     (truthyString search \<and> \<not> contentMatch e search filePath mimeType)"

definition mimeTypeOf :: "env \<Rightarrow> string \<Rightarrow> string" where
  "mimeTypeOf e filePath =
     (case mimeLookup e filePath of
        None \<Rightarrow> ''application/octet-stream''
      | Some t \<Rightarrow> if t = [] then ''application/octet-stream'' else t)"

text \<open>The file reaches \<open>results.push\<close>: none of the \<open>continue\<close>s is taken.\<close>

definition fileMatches ::
  "env \<Rightarrow> config \<Rightarrow> regexp option \<Rightarrow> string \<Rightarrow> string \<Rightarrow> stats \<Rightarrow> bool" where
  "fileMatches e cfg rx fileName filePath st =
     (let mimeType = mimeTypeOf e filePath
      in if skipName (caseSensitive cfg) (filename cfg) rx fileName then False
         else if skipExtension (extension cfg) fileName then False
         else if skipMinSize (minSize cfg) (sizeBytes st) then False
         else if skipMaxSize (maxSize cfg) (sizeBytes st) then False
         else if skipAfter (createdAfter cfg) (birthtime st) then False
         else if skipBefore (createdBefore cfg) (birthtime st) then False
         else if skipAfter (modifiedAfter cfg) (mtime st) then False
         else if skipBefore (modifiedBefore cfg) (mtime st) then False
         else if skipFileType (fileType cfg) mimeType then False
         else \<not> skipContent e (contentSearch cfg) filePath mimeType)"

text \<open>
  The object pushed on lines 126 to 132. \<open>toISOString\<close> is called on the creation time
  first, then on the modification time, and throws on an invalid date.
\<close>

definition makeFound :: "env \<Rightarrow> string \<Rightarrow> stats \<Rightarrow> error + found" where
  "makeFound e filePath st =
     (case toISOString (birthtime st) of
        Inl err \<Rightarrow> Inl err
      | Inr born \<Rightarrow>
          (case toISOString (mtime st) of
             Inl err \<Rightarrow> Inl err
           | Inr changed \<Rightarrow>
               Inr \<lparr>foundPath = filePath, foundSize = sizeBytes st, created = born,
                    modified = changed, foundType = mimeTypeOf e filePath\<rparr>))"

section \<open>The search: traversal\<close>

text \<open>
  The \<open>for\<close> loop over the entries of one directory (lines 73 to 134), on the pair of the
  queue and the results. A failed \<open>stat\<close> skips the entry; an error thrown while the
  record is built leaves the loop and the function.
\<close>

fun processEntries ::
  "env \<Rightarrow> config \<Rightarrow> regexp option \<Rightarrow> string \<Rightarrow> string list \<Rightarrow>
   string list \<times> found list \<Rightarrow> error + string list \<times> found list" where
  "processEntries e cfg rx currentDir [] (queue, results) = Inr (queue, results)"
| "processEntries e cfg rx currentDir (name # rest) (queue, results) =
     (let filePath = pathJoin e currentDir name
      in case stat e filePath of
           None \<Rightarrow> processEntries e cfg rx currentDir rest (queue, results)
         | Some st \<Rightarrow>
             (let queue' = (if isDirectory st \<and> recursive cfg then queue @ [filePath]
                            else queue)
              in if isFile st \<and> fileMatches e cfg rx name filePath st then
                   (case makeFound e filePath st of
                      Inl err \<Rightarrow> Inl err
                    | Inr f \<Rightarrow>
                        processEntries e cfg rx currentDir rest (queue', results @ [f]))
                 else processEntries e cfg rx currentDir rest (queue', results)))"

text \<open>
  The \<open>while\<close> loop (lines 59 to 135). \<open>k\<close> counts the calls of \<open>Date.now()\<close> made so far.
  The loop need not end (a file system may be infinitely deep and the clock may stand
  still): \<open>None\<close> is a search that never returns.
\<close>

partial_function (option) searchLoop ::
  "env \<Rightarrow> config \<Rightarrow> regexp option \<Rightarrow> int \<Rightarrow> nat \<Rightarrow> string list \<Rightarrow> found list \<Rightarrow>
   (error + found list) option" where
  "searchLoop e cfg rx startTime k queue results =
     (case queue of
        [] \<Rightarrow> Some (Inr results)
      | currentDir # rest \<Rightarrow>
          if \<not> int (length results) < maxResultsOf cfg then Some (Inr results)
          else if now e k - startTime > timeoutMsOf cfg then Some (Inl SearchTimedOut)
          else (case readdir e currentDir of
                  None \<Rightarrow> searchLoop e cfg rx startTime (Suc k) rest results
                | Some files \<Rightarrow>
                    (case processEntries e cfg rx currentDir files (rest, results) of
                       Inl err \<Rightarrow> Some (Inl err)
                     | Inr (queue', results') \<Rightarrow>
                         searchLoop e cfg rx startTime (Suc k) queue' results')))"

definition findFiles :: "env \<Rightarrow> config \<Rightarrow> (error + found list) option" where
  "findFiles e cfg =
     (case filenameRegex e cfg of
        Inl err \<Rightarrow> Some (Inl err)
      | Inr rx \<Rightarrow> searchLoop e cfg rx (now e 0) (Suc 0) (startDirs cfg) [])"

section \<open>The wildcard language as the specification words it\<close>

text \<open>
  The reading of a pattern that the specification gives, with the one change that the
  code forces: \<open>*\<close> stands for any run of characters none of which is a line terminator,
  \<open>?\<close> for exactly one such character, every other character (the dot too) for itself,
  and the pattern has to cover the whole name.
\<close>

fun globMatches :: "string \<Rightarrow> string \<Rightarrow> bool" where
  "globMatches [] s = (s = [])"
| "globMatches (p # ps) [] = (p = CHR ''*'' \<and> globMatches ps [])"
| "globMatches (p # ps) (c # cs) =
     (if p = CHR ''*'' then
        globMatches ps (c # cs) \<or> (\<not> lineTerminator c \<and> globMatches (p # ps) cs)
      else if p = CHR ''?'' then \<not> lineTerminator c \<and> globMatches ps cs
      else c = p \<and> globMatches ps cs)"

text \<open>
  A pattern in which every character other than \<open>.\<close>, \<open>*\<close> and \<open>?\<close> is one that a
  regular expression reads as itself.
\<close>

definition plainChar :: "char \<Rightarrow> bool" where
  "plainChar c = (c \<notin> set ''^$+()[{|'' \<and> c \<noteq> CHR 0x5C)"

definition plainPattern :: "string \<Rightarrow> bool" where
  "plainPattern p = list_all plainChar p"

text \<open>
  What one character of a plain pattern becomes: in the source of the regular expression
  (the three replacements of \<open>wildcardToRegex\<close> seen one character at a time), and in
  the compiled expression.
\<close>

definition wildcardSource :: "char \<Rightarrow> string" where
  "wildcardSource c =
     (if c = CHR ''.'' then [CHR 0x5C, CHR ''.'']
      else if c = CHR ''*'' then ''.*''
      else if c = CHR ''?'' then ''.''
      else [c])"

definition wildcardTerm :: "char \<Rightarrow> rterm" where
  "wildcardTerm c =
     (if c = CHR ''*'' then Star AnyChar
      else if c = CHR ''?'' then One AnyChar
      else One (Lit c))"

section \<open>Breadth-first order as the specification words it\<close>

text \<open>
  What one directory holds, read off the file system without the loop: its entries whose
  \<open>stat\<close> succeeds, with their paths, in the order of the listing (none when the
  directory cannot be listed); of these the subdirectories, which a recursive search
  discovers, and the files that pass the filters, which it reports.
\<close>

definition entriesIn :: "env \<Rightarrow> string \<Rightarrow> string list \<Rightarrow> (string \<times> string \<times> stats) list" where
  "entriesIn e d names =
     concat (map (\<lambda>n. case stat e (pathJoin e d n) of
                         None \<Rightarrow> []
                       | Some st \<Rightarrow> [(n, pathJoin e d n, st)]) names)"

definition entriesOf :: "env \<Rightarrow> string \<Rightarrow> (string \<times> string \<times> stats) list" where
  "entriesOf e d = (case readdir e d of None \<Rightarrow> [] | Some names \<Rightarrow> entriesIn e d names)"

definition isSubdir :: "string \<times> string \<times> stats \<Rightarrow> bool" where
  "isSubdir x = isDirectory (snd (snd x))"

definition isMatch :: "env \<Rightarrow> config \<Rightarrow> regexp option \<Rightarrow> string \<times> string \<times> stats \<Rightarrow> bool" where
  "isMatch e cfg rx x =
     (isFile (snd (snd x)) \<and> fileMatches e cfg rx (fst x) (fst (snd x)) (snd (snd x)))"

definition subdirsOf :: "env \<Rightarrow> config \<Rightarrow> string \<Rightarrow> string list" where
  "subdirsOf e cfg d =
     (if recursive cfg then map (\<lambda>x. fst (snd x)) (filter isSubdir (entriesOf e d)) else [])"

definition matchedOf ::
  "env \<Rightarrow> config \<Rightarrow> regexp option \<Rightarrow> string \<Rightarrow> (string \<times> string \<times> stats) list" where
  "matchedOf e cfg rx d = filter (isMatch e cfg rx) (entriesOf e d)"

text \<open>The record of a matched file whose two times are valid dates.\<close>

fun timeValue :: "date \<Rightarrow> int" where
  "timeValue (Date t) = t"
| "timeValue InvalidDate = 0"

definition validTimes :: "string \<times> string \<times> stats \<Rightarrow> bool" where
  "validTimes x = (birthtime (snd (snd x)) \<noteq> InvalidDate \<and> mtime (snd (snd x)) \<noteq> InvalidDate)"

definition recordOf :: "env \<Rightarrow> string \<times> string \<times> stats \<Rightarrow> found" where
  "recordOf e x =
     \<lparr>foundPath = fst (snd x), foundSize = sizeBytes (snd (snd x)),
      created = timeValue (birthtime (snd (snd x))),
      modified = timeValue (mtime (snd (snd x))), foundType = mimeTypeOf e (fst (snd x))\<rparr>"

definition filesOf :: "env \<Rightarrow> config \<Rightarrow> regexp option \<Rightarrow> string \<Rightarrow> found list" where
  "filesOf e cfg rx d = map (recordOf e) (matchedOf e cfg rx d)"

text \<open>
  Breadth-first order: level 0 is the start directories, level \<open>n + 1\<close> the
  subdirectories of the directories of level \<open>n\<close>, in their order. \<open>visited n\<close> lists
  the directories of the levels below \<open>n\<close>, level after level, and \<open>reported n\<close> the
  matches found in them, directory after directory.
\<close>

fun level :: "env \<Rightarrow> config \<Rightarrow> string list \<Rightarrow> nat \<Rightarrow> string list" where
  "level e cfg ds 0 = ds"
| "level e cfg ds (Suc n) = concat (map (subdirsOf e cfg) (level e cfg ds n))"

fun visited :: "env \<Rightarrow> config \<Rightarrow> string list \<Rightarrow> nat \<Rightarrow> string list" where
  "visited e cfg ds 0 = []"
| "visited e cfg ds (Suc n) = visited e cfg ds n @ level e cfg ds n"

definition reported :: "env \<Rightarrow> config \<Rightarrow> regexp option \<Rightarrow> string list \<Rightarrow> nat \<Rightarrow> found list" where
  "reported e cfg rx ds n = concat (map (filesOf e cfg rx) (visited e cfg ds n))"

text \<open>No match in the directories \<open>ds\<close> has an invalid date.\<close>

definition allValid :: "env \<Rightarrow> config \<Rightarrow> regexp option \<Rightarrow> string list \<Rightarrow> bool" where
  "allValid e cfg rx ds = list_all (\<lambda>d. list_all validTimes (matchedOf e cfg rx d)) ds"

section \<open>Concrete file systems and configurations\<close>

definition fileStat :: "int \<Rightarrow> int \<Rightarrow> int \<Rightarrow> stats" where
  "fileStat sz born changed =
     \<lparr>isDirectory = False, isFile = True, sizeBytes = sz, birthtime = Date born,
      mtime = Date changed\<rparr>"

definition dirStat :: stats where
  "dirStat =
     \<lparr>isDirectory = True, isFile = False, sizeBytes = 4096, birthtime = Date 0,
      mtime = Date 0\<rparr>"

text \<open>
  A world given by the tables of its file system, with paths joined by a slash and a
  clock that always reads \<open>t\<close>. The worlds below are only searched with patterns inside
  the computed fragment of RegExp, so their engine is never asked; it is set to reject.
\<close>

definition worldOf ::
  "(string \<times> string list) list \<Rightarrow> (string \<times> stats) list \<Rightarrow> (string \<times> string) list \<Rightarrow>
   (string \<times> string) list \<Rightarrow> int \<Rightarrow> env" where
  "worldOf dirs inodes contents mimes t =
     \<lparr>readdir = map_of dirs, stat = map_of inodes, readFile = map_of contents,
      mimeLookup = map_of mimes, pathJoin = (\<lambda>d n. d @ ''/'' @ n), now = (\<lambda>k. t),
      nativeRegExp = (\<lambda>source. None)\<rparr>"

text \<open>The configuration the tool builds when only the directories are given.\<close>

definition searchIn :: "string list \<Rightarrow> config" where
  "searchIn dirs =
     \<lparr>startDirs = dirs, filename = None, extension = None, minSize = None, maxSize = None,
      createdAfter = None, createdBefore = None, modifiedAfter = None, modifiedBefore = None,
      recursive = True, caseSensitive = False, contentSearch = None, fileType = None,
      maxResults = Some 1000, timeoutMs = Some 30000\<rparr>"

text \<open>The paths of a result, for stating what a search returns.\<close>

definition foundPaths :: "(error + found list) option \<Rightarrow> (error + string list) option" where
  "foundPaths r = map_option (map_sum id (map foundPath)) r"

text \<open>
  One directory \<open>A\<close> holding the files \<open>f1\<close> (1 byte, created and modified at 1000)
  and \<open>f2\<close> (2 bytes, created and modified at 2000).
\<close>

definition twoFiles :: env where
  "twoFiles =
     worldOf [(''A'', [''f1'', ''f2''])]
       [(''A/f1'', fileStat 1 1000 1000), (''A/f2'', fileStat 2 2000 2000)] [] [] 0"

text \<open>
  One directory \<open>A\<close> with a picture and three text files: \<open>notes.txt\<close> holds the word
  \<open>needle\<close>, \<open>todo.txt\<close> does not, and \<open>lost.txt\<close> cannot be read.
\<close>

definition mixedFiles :: env where
  "mixedFiles =
     worldOf [(''A'', [''pic.png'', ''notes.txt'', ''todo.txt'', ''lost.txt''])]
       [(''A/pic.png'', fileStat 10 0 0), (''A/notes.txt'', fileStat 20 0 0),
        (''A/todo.txt'', fileStat 30 0 0), (''A/lost.txt'', fileStat 40 0 0)]
       [(''A/notes.txt'', ''find the needle here''), (''A/todo.txt'', ''nothing'')]
       [(''A/pic.png'', ''image/png''), (''A/notes.txt'', ''text/plain''),
        (''A/todo.txt'', ''text/plain''), (''A/lost.txt'', ''text/plain'')] 0"

text \<open>One directory \<open>A\<close> holding \<open>report.pdf\<close> and \<open>mytest.log\<close>.\<close>

definition reportFiles :: env where
  "reportFiles =
     worldOf [(''A'', [''report.pdf'', ''mytest.log''])]
       [(''A/report.pdf'', fileStat 10 0 0), (''A/mytest.log'', fileStat 20 0 0)] [] [] 0"

text \<open>One directory \<open>A\<close> holding \<open>REPORT.pdf\<close>.\<close>

definition upperFiles :: env where
  "upperFiles = worldOf [(''A'', [''REPORT.pdf''])] [(''A/REPORT.pdf'', fileStat 10 0 0)] [] [] 0"

text \<open>
  One directory \<open>A\<close> holding the file \<open>old\<close>, whose creation time is outside the range
  of dates.
\<close>

definition outOfRange :: env where
  "outOfRange =
     worldOf [(''A'', [''old''])] [(''A/old'', (fileStat 1 0 0)\<lparr>birthtime := InvalidDate\<rparr>)]
       [] [] 0"

text \<open>
  Three start directories; \<open>A\<close> and \<open>B\<close> hold a file and a subdirectory with a file,
  \<open>C\<close> holds a file.
\<close>

definition threeRoots :: env where
  "threeRoots =
     worldOf
       [(''A'', [''a.txt'', ''sub'']), (''B'', [''sub'', ''b.txt'']), (''C'', [''c.txt'']),
        (''A/sub'', [''deep.txt'']), (''B/sub'', [''deeper.txt''])]
       [(''A/a.txt'', fileStat 1 0 0), (''A/sub'', dirStat), (''A/sub/deep.txt'', fileStat 2 0 0),
        (''B/b.txt'', fileStat 3 0 0), (''B/sub'', dirStat),
        (''B/sub/deeper.txt'', fileStat 4 0 0), (''C/c.txt'', fileStat 5 0 0)] [] [] 0"

text \<open>
  Two start directories, each with one file and one subdirectory holding one file; \<open>A\<close>
  lists its file first, \<open>B\<close> its subdirectory.
\<close>

definition twoRoots :: env where
  "twoRoots =
     worldOf
       [(''A'', [''a.txt'', ''sub'']), (''B'', [''sub'', ''b.txt'']),
        (''A/sub'', [''deep.txt'']), (''B/sub'', [''deeper.txt''])]
       [(''A/a.txt'', fileStat 1 0 0), (''A/sub'', dirStat), (''A/sub/deep.txt'', fileStat 2 0 0),
        (''B/b.txt'', fileStat 3 0 0), (''B/sub'', dirStat),
        (''B/sub/deeper.txt'', fileStat 4 0 0)] [] [] 0"

text \<open>The case folding of lines 93 and 94: identity when \<open>caseSensitive\<close> is set.\<close>

definition foldCase :: "bool \<Rightarrow> string \<Rightarrow> string" where
  "foldCase caseSens s = (if caseSens then s else toLowerCase s)"

section \<open>Evaluation\<close>

lemmas world_simps = worldOf_def searchIn_def fileStat_def dirStat_def foundPaths_def

lemmas filter_simps = fileMatches_def skipName_def skipExtension_def skipMinSize_def
  skipMaxSize_def skipAfter_def skipBefore_def skipFileType_def skipContent_def
  contentMatch_def dateGreater_def Let_def

lemma fileMatches_conj:
  "fileMatches e cfg rx fileName filePath st =
     (\<not> skipName (caseSensitive cfg) (filename cfg) rx fileName \<and>
      \<not> skipExtension (extension cfg) fileName \<and>
      \<not> skipMinSize (minSize cfg) (sizeBytes st) \<and>
      \<not> skipMaxSize (maxSize cfg) (sizeBytes st) \<and>
      \<not> skipAfter (createdAfter cfg) (birthtime st) \<and>
      \<not> skipBefore (createdBefore cfg) (birthtime st) \<and>
      \<not> skipAfter (modifiedAfter cfg) (mtime st) \<and>
      \<not> skipBefore (modifiedBefore cfg) (mtime st) \<and>
      \<not> skipFileType (fileType cfg) (mimeTypeOf e filePath) \<and>
      \<not> skipContent e (contentSearch cfg) filePath (mimeTypeOf e filePath))"
  by (simp add: fileMatches_def Let_def)

lemmas search_simps = findFiles_def filenameRegex_def searchLoop.simps mimeTypeOf_def
  makeFound_def

lemmas regex_simps = wildcardToRegex_def newRegExp_def regexPattern_def replaceAll_def
  syntaxChar_def lineTerminator_def

lemma lower_examples:
  "toLowerCase ''REPORT'' = ''report''" "toLowerCase ''REPORT*'' = ''report*''"
  "toLowerCase ''report.pdf'' = ''report.pdf''" "toLowerCase ''mytest.log'' = ''mytest.log''"
  "toLowerCase ''test'' = ''test''" "toLowerCase ''report*'' = ''report*''"
  "toLowerCase ''REPORT.pdf'' = ''report.pdf''"
  by code_simp+

section \<open>The wildcard matcher compiles plain patterns to their glob reading\<close>

lemma regexPattern_Nil: "regexPattern [] = []"
  by (simp add: regexPattern_def replaceAll_def)

lemma regexPattern_Cons: "regexPattern (c # cs) = wildcardSource c @ regexPattern cs"
  by (simp add: regexPattern_def replaceAll_def wildcardSource_def)

lemma parse_regexPattern:
  "plainPattern p \<Longrightarrow>
   parseRegExp pend (regexPattern p @ ''$'') = Terms (emit pend @ map wildcardTerm p @ [Eol])"
proof (induction p arbitrary: pend)
  case Nil
  then show ?case by (simp add: regexPattern_Nil)
next
  case (Cons c cs)
  then have plain: "plainChar c" and rest: "plainPattern cs"
    by (simp_all add: plainPattern_def)
  note IH = Cons.IH [OF rest]
  consider (dot) "c = CHR ''.''" | (star) "c = CHR ''*''" | (quest) "c = CHR ''?''"
    | (other) "c \<noteq> CHR ''.''" "c \<noteq> CHR ''*''" "c \<noteq> CHR ''?''"
    by blast
  then show ?case
  proof cases
    case dot
    then show ?thesis
      by (simp add: regexPattern_Cons wildcardSource_def wildcardTerm_def IH syntaxChar_def)
  next
    case star
    then show ?thesis
      by (simp add: regexPattern_Cons wildcardSource_def wildcardTerm_def IH)
  next
    case quest
    then show ?thesis
      by (simp add: regexPattern_Cons wildcardSource_def wildcardTerm_def IH)
  next
    case other
    with plain show ?thesis
      by (simp add: regexPattern_Cons wildcardSource_def wildcardTerm_def IH plainChar_def)
  qed
qed

text \<open>A plain pattern stays inside the computed fragment, whatever the engine.\<close>

lemma wildcardToRegex_plain:
  "plainPattern p \<Longrightarrow> wildcardToRegex e p = Inr (Compiled (Bol # map wildcardTerm p @ [Eol]))"
  by (simp add: wildcardToRegex_def newRegExp_def parse_regexPattern)

lemma matchHere_glob: "matchHere (map wildcardTerm p @ [Eol]) b s = globMatches p s"
proof (induction p s arbitrary: b rule: globMatches.induct)
  case (1 s)
  then show ?case by simp
next
  case (2 p ps)
  then show ?case by (simp add: wildcardTerm_def)
next
  case (3 p ps c cs)
  then show ?case by (simp add: wildcardTerm_def)
qed

lemma searchFrom_Bol_later: "searchFrom (Bol # ts) False s = False"
  by (induction s) simp_all

lemma searchFrom_Bol: "searchFrom (Bol # ts) True s = matchHere ts True s"
  by (cases s) (simp_all add: searchFrom_Bol_later)

text \<open>
  C5, as the claim states it, fails: the compiled \<open>*\<close> is the regular expression \<open>.*\<close>,
  and \<open>.\<close> does not match a line terminator, so the pattern \<open>*\<close> does not match the
  three-character name made of \<open>a\<close>, a line feed and \<open>b\<close>.
\<close>

theorem star_stops_at_line_feed:
  "map_sum id (\<lambda>r. regexTest r [CHR ''a'', CHR 0x0A, CHR ''b''])
     (wildcardToRegex twoFiles ''*'')
   = Inr False"
  by (simp add: regex_simps)

text \<open>
  C5, amended. For a pattern whose characters other than \<open>.\<close>, \<open>*\<close> and \<open>?\<close> are not
  syntax characters of regular expressions, \<open>wildcardToRegex\<close> succeeds and the compiled
  expression accepts exactly the names the pattern covers as a whole, where a dot stands
  for a dot, \<open>*\<close> for any run (also the empty one) of characters other than line
  terminators, and \<open>?\<close> for exactly one character other than a line terminator.
\<close>

theorem wildcard_matcher_refines_glob:
  "plainPattern p \<Longrightarrow>
   map_sum id (\<lambda>r. regexTest r s) (wildcardToRegex e p) = Inr (globMatches p s)"
  by (simp add: wildcardToRegex_plain searchFrom_Bol matchHere_glob)

text \<open>The examples of the claim: \<open>*.txt\<close> and \<open>file?\<close>.\<close>

theorem wildcard_matcher_refines_glob_witness:
  "plainPattern ''*.txt'' \<and> plainPattern ''file?'' \<and>
   map_sum id (\<lambda>r. regexTest r ''a.txt'') (wildcardToRegex twoFiles ''*.txt'') = Inr True \<and>
   map_sum id (\<lambda>r. regexTest r ''b.c.txt'') (wildcardToRegex twoFiles ''*.txt'') = Inr True \<and>
   map_sum id (\<lambda>r. regexTest r ''a.txtx'') (wildcardToRegex twoFiles ''*.txt'') = Inr False \<and>
   map_sum id (\<lambda>r. regexTest r ''file1'') (wildcardToRegex twoFiles ''file?'') = Inr True \<and>
   map_sum id (\<lambda>r. regexTest r ''file12'') (wildcardToRegex twoFiles ''file?'') = Inr False \<and>
   map_sum id (\<lambda>r. regexTest r ''file'') (wildcardToRegex twoFiles ''file?'') = Inr False"
proof -
  have p1: "plainPattern ''*.txt''" and p2: "plainPattern ''file?''"
    by (simp_all add: plainPattern_def plainChar_def)
  show ?thesis
    using p1 p2
      wildcard_matcher_refines_glob [OF p1, of "''a.txt''" twoFiles]
      wildcard_matcher_refines_glob [OF p1, of "''b.c.txt''" twoFiles]
      wildcard_matcher_refines_glob [OF p1, of "''a.txtx''" twoFiles]
      wildcard_matcher_refines_glob [OF p2, of "''file1''" twoFiles]
      wildcard_matcher_refines_glob [OF p2, of "''file12''" twoFiles]
      wildcard_matcher_refines_glob [OF p2, of "''file''" twoFiles]
    by (simp add: lineTerminator_def)
qed


section \<open>Size bounds\<close>

text \<open>
  C10. A bound of 0 switches its size filter off: with \<open>minSize = 0\<close> no file is rejected
  by the minimum check, and with \<open>maxSize = 0\<close> no file, whatever its size, is rejected by
  the maximum check; a file is then a match exactly when it is one without the bound.
\<close>

theorem zero_size_bound_is_inactive:
  "\<not> skipMinSize (Some 0) sz \<and> \<not> skipMaxSize (Some 0) sz \<and>
   fileMatches e (cfg\<lparr>minSize := Some 0\<rparr>) rx name p st
     = fileMatches e (cfg\<lparr>minSize := None\<rparr>) rx name p st \<and>
   fileMatches e (cfg\<lparr>maxSize := Some 0\<rparr>) rx name p st
     = fileMatches e (cfg\<lparr>maxSize := None\<rparr>) rx name p st"
  by (simp add: fileMatches_conj skipMinSize_def skipMaxSize_def)

text \<open>
  C9. With \<open>maxSize = 0\<close> the file \<open>f1\<close> of 1 byte, which is \<open>maxSize + 1\<close>, and the file
  \<open>f2\<close> of 2 bytes are returned: line 103 tests \<open>maxSize\<close> for truthiness before it
  compares, and 0 is falsy.
\<close>

theorem maxSize_zero_keeps_larger_files:
  "foundPaths (findFiles twoFiles ((searchIn [''A''])\<lparr>maxSize := Some 0\<rparr>))
   = Some (Inr [''A/f1'', ''A/f2''])"
  by (simp add: search_simps twoFiles_def world_simps filter_simps)

text \<open>
  For every other bound the comparison is inclusive: a file of exactly \<open>minSize\<close> or
  exactly \<open>maxSize\<close> bytes is not rejected, and a file of \<open>maxSize + 1\<close> bytes is
  rejected when \<open>maxSize\<close> is not 0.
\<close>

lemma nonzero_size_bounds_are_inclusive:
  "\<not> skipMinSize (Some n) n \<and> \<not> skipMaxSize (Some n) n \<and>
   (n \<noteq> 0 \<longrightarrow>
      skipMaxSize (Some n) (n + 1) \<and>
      \<not> fileMatches e (cfg\<lparr>maxSize := Some n\<rparr>) rx name p (st\<lparr>sizeBytes := n + 1\<rparr>))"
  by (simp add: fileMatches_conj skipMinSize_def skipMaxSize_def)

section \<open>Date bounds\<close>

text \<open>
  C2, as the claim states it, fails: with \<open>modifiedAfter\<close> at 1000, the file \<open>f1\<close>,
  modified exactly at 1000, is returned.
\<close>

theorem file_modified_at_bound_is_returned:
  "foundPaths (findFiles twoFiles ((searchIn [''A''])\<lparr>modifiedAfter := Some (Date 1000)\<rparr>))
   = Some (Inr [''A/f1'', ''A/f2''])"
  by (simp add: search_simps twoFiles_def world_simps filter_simps)

text \<open>
  C2, amended. Each of the four date filters compares without strictness: with the bound
  set to a valid date \<open>b\<close>, a file with the timestamp \<open>t\<close> is a match exactly when \<open>t\<close>
  is not before \<open>b\<close> (\<open>createdAfter\<close>, \<open>modifiedAfter\<close>) or not after \<open>b\<close>
  (\<open>createdBefore\<close>, \<open>modifiedBefore\<close>) and it is a match without that bound; a file
  whose timestamp equals the bound passes.
\<close>

theorem date_bounds_are_inclusive:
  "fileMatches e (cfg\<lparr>createdAfter := Some (Date b)\<rparr>) rx name p (st\<lparr>birthtime := Date t\<rparr>)
     = (b \<le> t \<and>
        fileMatches e (cfg\<lparr>createdAfter := None\<rparr>) rx name p (st\<lparr>birthtime := Date t\<rparr>)) \<and>
   fileMatches e (cfg\<lparr>createdBefore := Some (Date b)\<rparr>) rx name p (st\<lparr>birthtime := Date t\<rparr>)
     = (t \<le> b \<and>
        fileMatches e (cfg\<lparr>createdBefore := None\<rparr>) rx name p (st\<lparr>birthtime := Date t\<rparr>)) \<and>
   fileMatches e (cfg\<lparr>modifiedAfter := Some (Date b)\<rparr>) rx name p (st\<lparr>mtime := Date t\<rparr>)
     = (b \<le> t \<and>
        fileMatches e (cfg\<lparr>modifiedAfter := None\<rparr>) rx name p (st\<lparr>mtime := Date t\<rparr>)) \<and>
   fileMatches e (cfg\<lparr>modifiedBefore := Some (Date b)\<rparr>) rx name p (st\<lparr>mtime := Date t\<rparr>)
     = (t \<le> b \<and>
        fileMatches e (cfg\<lparr>modifiedBefore := None\<rparr>) rx name p (st\<lparr>mtime := Date t\<rparr>)) \<and>
   \<not> skipAfter (Some (Date b)) (Date b) \<and> \<not> skipBefore (Some (Date b)) (Date b)"
proof -
  have after: "skipAfter (Some (Date b)) (Date u) = (\<not> b \<le> u)" for u
    by (simp add: skipAfter_def not_le)
  have before: "skipBefore (Some (Date b)) (Date u) = (\<not> u \<le> b)" for u
    by (simp add: skipBefore_def dateGreater_def not_le)
  have none: "\<not> skipAfter None d" "\<not> skipBefore None d" for d
    by (simp_all add: skipAfter_def skipBefore_def)
  show ?thesis
    unfolding fileMatches_conj by (simp add: after before none) blast
qed

section \<open>Content search\<close>

text \<open>
  C3, as the claim states it, fails: with \<open>contentSearch\<close> set to \<open>needle\<close>, the picture
  \<open>pic.png\<close>, whose type \<open>image/png\<close> is not textual, is returned (and of the text files
  only the one that holds the word).
\<close>

theorem picture_passes_content_search:
  "foundPaths (findFiles mixedFiles ((searchIn [''A''])\<lparr>contentSearch := Some ''needle''\<rparr>))
   = Some (Inr [''A/pic.png'', ''A/notes.txt''])"
  by (simp add: search_simps mixedFiles_def world_simps filter_simps)

text \<open>
  C3, amended. When \<open>contentSearch\<close> is a non-empty string, a file whose type starts with
  \<open>text/\<close> is a match only if its content can be read and contains the string; a file of
  any other type is not tested against \<open>contentSearch\<close>: it is a match exactly when it is
  one without \<open>contentSearch\<close>.
\<close>

theorem content_filter_tests_text_files_only:
  "(fileMatches e cfg rx name p st \<and> contentSearch cfg = Some needle \<and> needle \<noteq> [] \<and>
    startsWith (mimeTypeOf e p) ''text/''
      \<longrightarrow> (case readFile e p of
             None \<Rightarrow> False
           | Some content \<Rightarrow> includesStr content needle)) \<and>
   (\<not> startsWith (mimeTypeOf e p) ''text/''
      \<longrightarrow> fileMatches e cfg rx name p st
          = fileMatches e (cfg\<lparr>contentSearch := None\<rparr>) rx name p st)"
  by (auto simp add: fileMatches_conj skipContent_def contentMatch_def split: option.splits)

theorem content_filter_tests_text_files_only_witness:
  "fileMatches mixedFiles ((searchIn [''A''])\<lparr>contentSearch := Some ''needle''\<rparr>) None
     ''notes.txt'' ''A/notes.txt'' (fileStat 20 0 0) \<and>
   ''needle'' \<noteq> [] \<and> startsWith (mimeTypeOf mixedFiles ''A/notes.txt'') ''text/'' \<and>
   \<not> startsWith (mimeTypeOf mixedFiles ''A/pic.png'') ''text/'' \<and>
   readFile mixedFiles ''A/notes.txt'' = Some ''find the needle here'' \<and>
   includesStr ''find the needle here'' ''needle'' \<and>
   fileMatches mixedFiles ((searchIn [''A''])\<lparr>contentSearch := Some ''needle''\<rparr>) None
     ''pic.png'' ''A/pic.png'' (fileStat 10 0 0)"
  using content_filter_tests_text_files_only
    [where e = mixedFiles and cfg = "(searchIn [''A''])\<lparr>contentSearch := Some ''needle''\<rparr>"
       and rx = None and name = "''notes.txt''" and p = "''A/notes.txt''"
       and st = "fileStat 20 0 0" and needle = "''needle''"]
    content_filter_tests_text_files_only
    [where e = mixedFiles and cfg = "(searchIn [''A''])\<lparr>contentSearch := Some ''needle''\<rparr>"
       and rx = None and name = "''pic.png''" and p = "''A/pic.png''"
       and st = "fileStat 10 0 0" and needle = "''needle''"]
  by (simp add: mixedFiles_def world_simps filter_simps mimeTypeOf_def)

section \<open>The name filter\<close>

lemma startsWith_iff: "startsWith s p = (\<exists>v. s = p @ v)"
  by (induction s p rule: startsWith.induct) auto

lemma includesStr_iff: "includesStr s p = (\<exists>u v. s = u @ p @ v)"
proof (induction s)
  case Nil
  then show ?case by simp
next
  case (Cons c cs)
  have "(\<exists>u v. c # cs = u @ p @ v) = ((\<exists>v. c # cs = p @ v) \<or> (\<exists>u v. cs = u @ p @ v))"
  proof
    assume "\<exists>u v. c # cs = u @ p @ v"
    then obtain u v where uv: "c # cs = u @ p @ v" by blast
    show "(\<exists>v. c # cs = p @ v) \<or> (\<exists>u v. cs = u @ p @ v)"
    proof (cases u)
      case Nil
      with uv show ?thesis by auto
    next
      case (Cons x xs)
      with uv have "cs = xs @ p @ v" by simp
      then show ?thesis by blast
    qed
  next
    assume "(\<exists>v. c # cs = p @ v) \<or> (\<exists>u v. cs = u @ p @ v)"
    then show "\<exists>u v. c # cs = u @ p @ v"
    proof
      assume "\<exists>v. c # cs = p @ v"
      then obtain v where "c # cs = [] @ p @ v" by auto
      then show ?thesis by blast
    next
      assume "\<exists>u v. cs = u @ p @ v"
      then obtain u v where "c # cs = (c # u) @ p @ v" by auto
      then show ?thesis by blast
    qed
  qed
  with Cons show ?case by (simp add: startsWith_iff)
qed

text \<open>
  Where folding changes nothing in the pattern (the search is case-sensitive, or the
  pattern has no capital letter), a plain pattern accepts a name exactly when it covers
  the folded name as a wildcard or occurs in it as a substring.
\<close>

lemma plain_pattern_accepts_wildcard_or_substring:
  assumes "filename cfg = Some pat" and "pat \<noteq> []" and "plainPattern pat"
    and "caseSensitive cfg \<or> toLowerCase pat = pat"
  shows "\<exists>r. filenameRegex e cfg = Inr (Some r) \<and>
           (\<not> skipName (caseSensitive cfg) (filename cfg) (Some r) name)
             = (globMatches (foldCase (caseSensitive cfg) pat)
                  (foldCase (caseSensitive cfg) name) \<or>
                (\<exists>u v. foldCase (caseSensitive cfg) name
                       = u @ foldCase (caseSensitive cfg) pat @ v))"
proof -
  let ?r = "Compiled (Bol # map wildcardTerm pat @ [Eol])"
  have rx: "filenameRegex e cfg = Inr (Some ?r)"
    using assms by (simp add: filenameRegex_def wildcardToRegex_plain)
  have test: "regexTest ?r s = globMatches pat s" for s
    by (simp add: searchFrom_Bol matchHere_glob)
  have same: "foldCase (caseSensitive cfg) pat = pat"
    using assms(4) by (auto simp add: foldCase_def)
  have "(\<not> skipName (caseSensitive cfg) (filename cfg) (Some ?r) name)
          = (regexTest ?r (foldCase (caseSensitive cfg) name) \<or>
             includesStr (foldCase (caseSensitive cfg) name)
               (foldCase (caseSensitive cfg) pat))"
    using assms(1)
    by (simp add: skipName_def foldCase_def Let_def del: regexTest.simps)
  then have "(\<not> skipName (caseSensitive cfg) (filename cfg) (Some ?r) name)
          = (globMatches (foldCase (caseSensitive cfg) pat)
               (foldCase (caseSensitive cfg) name) \<or>
             (\<exists>u v. foldCase (caseSensitive cfg) name
                    = u @ foldCase (caseSensitive cfg) pat @ v))"
    by (simp only: test same includesStr_iff)
  with rx show ?thesis by blast
qed

lemma test_finds_mytest:
  "foundPaths (findFiles reportFiles ((searchIn [''A''])\<lparr>filename := Some ''test''\<rparr>))
   = Some (Inr [''A/mytest.log''])"
  by (simp add: search_simps reportFiles_def world_simps filter_simps regex_simps
      lower_examples)

text \<open>
  C6. With \<open>caseSensitive\<close> false the name \<open>REPORT.pdf\<close> is rejected by the pattern
  \<open>REPORT*\<close>, although the pattern covers the name as a wildcard, as given and folded:
  the name is folded, and the regular expression of line 56 is not. A case-sensitive
  search with the same pattern returns the file.
\<close>

theorem wildcard_match_is_rejected_after_folding:
  "globMatches ''REPORT*'' ''REPORT.pdf'' \<and>
   globMatches (toLowerCase ''REPORT*'') (toLowerCase ''REPORT.pdf'') \<and>
   foundPaths (findFiles upperFiles ((searchIn [''A''])\<lparr>filename := Some ''REPORT*''\<rparr>))
     = Some (Inr []) \<and>
   foundPaths (findFiles upperFiles
       ((searchIn [''A''])\<lparr>filename := Some ''REPORT*'', caseSensitive := True\<rparr>))
     = Some (Inr [''A/REPORT.pdf''])"
  by (simp add: search_simps upperFiles_def world_simps filter_simps regex_simps
      lower_examples)

text \<open>
  C4. The code folds the name and, for the substring test, the pattern, but the regular
  expression was compiled on line 56 from the pattern as given. With \<open>caseSensitive\<close>
  false, the pattern \<open>REPORT*\<close> therefore finds nothing in a directory that holds
  \<open>report.pdf\<close>, while the folded pattern \<open>report*\<close> finds it; the pattern \<open>REPORT\<close> of
  the claim's example finds it through the substring test.
\<close>

theorem uppercase_wildcard_finds_nothing:
  "foundPaths (findFiles reportFiles ((searchIn [''A''])\<lparr>filename := Some ''REPORT*''\<rparr>))
     = Some (Inr []) \<and>
   foundPaths (findFiles reportFiles
       ((searchIn [''A''])\<lparr>filename := Some (toLowerCase ''REPORT*'')\<rparr>))
     = Some (Inr [''A/report.pdf'']) \<and>
   foundPaths (findFiles reportFiles ((searchIn [''A''])\<lparr>filename := Some ''REPORT''\<rparr>))
     = Some (Inr [''A/report.pdf''])"
  by (simp add: search_simps reportFiles_def world_simps filter_simps regex_simps
      lower_examples)

section \<open>Errors and the result cap\<close>

text \<open>
  The errors of the loop are the timeout and the RangeError of a record that cannot be
  built; the error of a pattern that does not compile is a SyntaxError.
\<close>

lemma processEntries_error:
  "processEntries e cfg rx d names (queue, results) = Inl err \<Longrightarrow> err = RangeError"
proof (induction names arbitrary: queue results)
  case Nil
  then show ?case by simp
next
  case (Cons n ns)
  have mk: "makeFound e p st = Inl x \<Longrightarrow> x = RangeError" for p st x
    by (cases "birthtime st"; cases "mtime st") (simp_all add: makeFound_def)
  from Cons.prems show ?case
    by (auto simp add: Let_def split: option.splits if_splits sum.splits
        dest: Cons.IH mk)
qed

lemma searchLoop_result_cases:
  assumes "searchLoop e cfg rx startTime k queue results = Some r"
  shows "r = Inl SearchTimedOut \<or> r = Inl RangeError \<or> (\<exists>rs. r = Inr rs)"
proof (rule searchLoop.raw_induct
    [where P = "\<lambda>e cfg rx startTime k queue results r.
                  r = Inl SearchTimedOut \<or> r = Inl RangeError \<or> (\<exists>rs. r = Inr rs)",
     OF _ assms])
  fix f e cfg rx startTime k queue results r
  assume IH: "\<And>e cfg rx startTime k queue results r.
      f e cfg rx startTime k queue results = Some r \<Longrightarrow>
      r = Inl SearchTimedOut \<or> r = Inl RangeError \<or> (\<exists>rs. r = Inr rs)"
    and step: "(case queue of
        [] \<Rightarrow> Some (Inr results)
      | currentDir # rest \<Rightarrow>
          if \<not> int (length results) < maxResultsOf cfg then Some (Inr results)
          else if now e k - startTime > timeoutMsOf cfg then Some (Inl SearchTimedOut)
          else (case readdir e currentDir of
                  None \<Rightarrow> f e cfg rx startTime (Suc k) rest results
                | Some files \<Rightarrow>
                    (case processEntries e cfg rx currentDir files (rest, results) of
                       Inl err \<Rightarrow> Some (Inl err)
                     | Inr (queue', results') \<Rightarrow>
                         f e cfg rx startTime (Suc k) queue' results'))) = Some r"
  from step show "r = Inl SearchTimedOut \<or> r = Inl RangeError \<or> (\<exists>rs. r = Inr rs)"
    by (auto split: list.splits if_splits option.splits prod.splits sum.splits
        dest: IH processEntries_error)
qed

lemma filenameRegex_error: "filenameRegex e cfg = Inl err \<Longrightarrow> err = RegExpSyntaxError"
  by (auto simp add: filenameRegex_def wildcardToRegex_def newRegExp_def
      split: option.splits if_splits parsed.splits)

lemma findFiles_error_cases:
  assumes "findFiles e cfg = Some (Inl err)"
  shows "err = SearchTimedOut \<or> err = RangeError \<or> err = RegExpSyntaxError"
proof (cases "filenameRegex e cfg")
  case (Inl x)
  with assms filenameRegex_error [of e cfg x] show ?thesis
    by (simp add: findFiles_def)
next
  case (Inr rx)
  with assms have "searchLoop e cfg rx (now e 0) (Suc 0) (startDirs cfg) [] = Some (Inl err)"
    by (simp add: findFiles_def)
  from searchLoop_result_cases [OF this] show ?thesis by auto
qed

text \<open>
  A directory that cannot be listed is skipped and the search goes on; a search that
  finds nothing returns the empty sequence; the timeout is an error of its own, and so
  is a creation time that has no ISO rendering.
\<close>

lemma unreadable_directory_is_skipped:
  "foundPaths (findFiles twoFiles (searchIn [''missing'', ''A'']))
   = Some (Inr [''A/f1'', ''A/f2''])"
  by (simp add: search_simps twoFiles_def world_simps filter_simps)

lemma nothing_found_is_success:
  "findFiles twoFiles ((searchIn [''A''])\<lparr>extension := Some ''pdf''\<rparr>) = Some (Inr [])"
  by (simp add: search_simps twoFiles_def world_simps filter_simps endsWith_def)

lemma timeout_is_an_error:
  "findFiles (twoFiles\<lparr>now := \<lambda>k. 40000 * int k\<rparr>) (searchIn [''A''])
   = Some (Inl SearchTimedOut)"
  by (simp add: search_simps twoFiles_def world_simps)

lemma invalid_time_is_surfaced:
  "findFiles outOfRange (searchIn [''A'']) = Some (Inl RangeError)"
  by (simp add: search_simps outOfRange_def world_simps filter_simps)

text \<open>
  C7. \<open>findFiles\<close> surfaces an error that is not the timeout: the pattern \<open>c++\<close> becomes
  the regular expression \<open>^c++$\<close>, whose second \<open>+\<close> has nothing to repeat, and
  \<open>new RegExp\<close> on line 56 throws a SyntaxError, in any world and for any start
  directories.
\<close>

theorem invalid_pattern_is_surfaced:
  "findFiles e ((searchIn dirs)\<lparr>filename := Some ''c++''\<rparr>) = Some (Inl RegExpSyntaxError)"
  by (simp add: findFiles_def filenameRegex_def searchIn_def regex_simps)

text \<open>
  C1. The cap is only tested between directories: with \<open>maxResults = 1\<close> the search of
  one directory with two files returns both.
\<close>

theorem more_results_than_maxResults:
  "foundPaths (findFiles twoFiles ((searchIn [''A''])\<lparr>maxResults := Some 1\<rparr>))
     = Some (Inr [''A/f1'', ''A/f2'']) \<and>
   \<not> int (length [''A/f1'', ''A/f2'']) \<le> 1"
  by (simp add: search_simps twoFiles_def world_simps filter_simps)


section \<open>Traversal order\<close>

text \<open>One directory: what the loop over its entries does to the queue and the results.\<close>

lemma makeFound_valid:
  "validTimes (n, p, st) \<Longrightarrow> makeFound e p st = Inr (recordOf e (n, p, st))"
  by (cases "birthtime st"; cases "mtime st") (simp_all add: makeFound_def validTimes_def recordOf_def)

lemma entriesIn_Nil: "entriesIn e d [] = []"
  by (simp add: entriesIn_def)

lemma entriesIn_Cons:
  "entriesIn e d (n # ns) =
     (case stat e (pathJoin e d n) of None \<Rightarrow> [] | Some st \<Rightarrow> [(n, pathJoin e d n, st)])
     @ entriesIn e d ns"
  by (simp add: entriesIn_def)

lemma processEntries_exact:
  assumes "list_all validTimes (filter (isMatch e cfg rx) (entriesIn e d names))"
  shows "processEntries e cfg rx d names (queue, results) =
         Inr (queue @ (if recursive cfg
                       then map (\<lambda>x. fst (snd x)) (filter isSubdir (entriesIn e d names))
                       else []),
              results @ map (recordOf e) (filter (isMatch e cfg rx) (entriesIn e d names)))"
  using assms
proof (induction names arbitrary: queue results)
  case Nil
  then show ?case by (simp add: entriesIn_Nil)
next
  case (Cons n ns)
  show ?case
  proof (cases "stat e (pathJoin e d n)")
    case None
    with Cons show ?thesis by (simp add: entriesIn_Cons)
  next
    case (Some st)
    let ?x = "(n, pathJoin e d n, st)"
    from Cons.prems Some have rest:
      "list_all validTimes (filter (isMatch e cfg rx) (entriesIn e d ns))"
      by (simp add: entriesIn_Cons split: if_splits)
    note IH = Cons.IH [OF rest]
    have sub: "isSubdir ?x = isDirectory st" by (simp add: isSubdir_def)
    have mat: "isMatch e cfg rx ?x = (isFile st \<and> fileMatches e cfg rx n (pathJoin e d n) st)"
      by (simp add: isMatch_def)
    show ?thesis
    proof (cases "isMatch e cfg rx ?x")
      case True
      with Cons.prems Some have "validTimes ?x" by (simp add: entriesIn_Cons)
      then have mk: "makeFound e (pathJoin e d n) st = Inr (recordOf e ?x)"
        by (rule makeFound_valid)
      from True mat have m: "isFile st" "fileMatches e cfg rx n (pathJoin e d n) st"
        by simp_all
      show ?thesis
        using Some True by (simp add: entriesIn_Cons IH sub m mk Let_def)
    next
      case False
      with mat have m: "(isFile st \<and> fileMatches e cfg rx n (pathJoin e d n) st) = False"
        by simp
      show ?thesis
        using Some False by (simp add: entriesIn_Cons IH sub m Let_def)
    qed
  qed
qed

lemma searchLoop_Nil: "searchLoop e cfg rx t k [] r = Some (Inr r)"
  by (simp add: searchLoop.simps)

lemma searchLoop_step:
  assumes clock: "\<not> now e k - t > timeoutMsOf cfg"
    and cap: "int (length r) < maxResultsOf cfg"
    and valid: "list_all validTimes (matchedOf e cfg rx d)"
  shows "searchLoop e cfg rx t k (d # q) r =
         searchLoop e cfg rx t (Suc k) (q @ subdirsOf e cfg d) (r @ filesOf e cfg rx d)"
proof (cases "readdir e d")
  case None
  then show ?thesis
    using clock cap
    by (subst searchLoop.simps)
      (simp add: subdirsOf_def filesOf_def matchedOf_def entriesOf_def
        del: maxResultsOf.simps timeoutMsOf.simps)
next
  case (Some names)
  with valid have "list_all validTimes (filter (isMatch e cfg rx) (entriesIn e d names))"
    by (simp add: matchedOf_def entriesOf_def)
  from processEntries_exact [OF this] Some show ?thesis
    using clock cap
    by (subst searchLoop.simps)
      (simp add: subdirsOf_def filesOf_def matchedOf_def entriesOf_def
        del: maxResultsOf.simps timeoutMsOf.simps)
qed

text \<open>
  The queue is first in, first out: the directories at its head are taken in their
  order, and what they discover goes behind everything that was already waiting.
\<close>

lemma queue_is_first_in_first_out:
  assumes clock: "\<And>j. \<not> now e j - t > timeoutMsOf cfg"
    and cap: "int (length r) + int (length (concat (map (filesOf e cfg rx) ds))) < maxResultsOf cfg"
    and valid: "allValid e cfg rx ds"
  shows "searchLoop e cfg rx t k (ds @ q) r =
         searchLoop e cfg rx t (k + length ds) (q @ concat (map (subdirsOf e cfg) ds))
           (r @ concat (map (filesOf e cfg rx) ds))"
  using cap valid
proof (induction ds arbitrary: k q r)
  case Nil
  then show ?case by simp
next
  case (Cons d ds)
  from Cons.prems have c1: "int (length r) < maxResultsOf cfg"
    and v1: "list_all validTimes (matchedOf e cfg rx d)"
    and c2: "int (length (r @ filesOf e cfg rx d))
             + int (length (concat (map (filesOf e cfg rx) ds))) < maxResultsOf cfg"
    and v2: "allValid e cfg rx ds"
    by (simp_all add: allValid_def del: maxResultsOf.simps)
  have "searchLoop e cfg rx t k ((d # ds) @ q) r =
        searchLoop e cfg rx t (Suc k) (ds @ (q @ subdirsOf e cfg d)) (r @ filesOf e cfg rx d)"
    using searchLoop_step [OF clock c1 v1, where q = "ds @ q"] by simp
  also have "\<dots> = searchLoop e cfg rx t (Suc k + length ds)
      ((q @ subdirsOf e cfg d) @ concat (map (subdirsOf e cfg) ds))
      ((r @ filesOf e cfg rx d) @ concat (map (filesOf e cfg rx) ds))"
    by (rule Cons.IH [OF c2 v2])
  finally show ?case by simp
qed

lemma searchLoop_levels:
  assumes clock: "\<And>k. \<not> now e k - t > timeoutMsOf cfg"
    and valid: "allValid e cfg rx (visited e cfg ds n)"
    and cap: "int (length (reported e cfg rx ds n)) < maxResultsOf cfg"
  shows "searchLoop e cfg rx t (Suc 0) ds [] =
         searchLoop e cfg rx t (Suc (length (visited e cfg ds n)))
           (level e cfg ds n) (reported e cfg rx ds n)"
  using valid cap
proof (induction n)
  case 0
  then show ?case by (simp add: reported_def)
next
  case (Suc n)
  from Suc.prems have v1: "allValid e cfg rx (visited e cfg ds n)"
    and v2: "allValid e cfg rx (level e cfg ds n)"
    by (simp_all add: allValid_def)
  from Suc.prems have c2: "int (length (reported e cfg rx ds n))
      + int (length (concat (map (filesOf e cfg rx) (level e cfg ds n)))) < maxResultsOf cfg"
    by (simp add: reported_def del: maxResultsOf.simps)
  then have c1: "int (length (reported e cfg rx ds n)) < maxResultsOf cfg"
    by linarith
  have "searchLoop e cfg rx t (Suc 0) ds [] =
        searchLoop e cfg rx t (Suc (length (visited e cfg ds n)))
          (level e cfg ds n @ []) (reported e cfg rx ds n)"
    using Suc.IH [OF v1 c1] by simp
  also have "\<dots> = searchLoop e cfg rx t
      (Suc (length (visited e cfg ds n)) + length (level e cfg ds n))
      ([] @ concat (map (subdirsOf e cfg) (level e cfg ds n)))
      (reported e cfg rx ds n @ concat (map (filesOf e cfg rx) (level e cfg ds n)))"
    by (rule queue_is_first_in_first_out [OF clock c2 v2])
  finally show ?case by (simp add: reported_def)
qed


text \<open>
  C8. The traversal is breadth-first. In a search whose pattern compiles, that does not
  time out, meets no invalid date and stays below the cap during the first \<open>n\<close> levels:
  once the directories of these levels have been taken from the queue, which happens in
  the order \<open>visited\<close> (all start directories, then all their subdirectories, and so
  on), the queue holds exactly the directories of level \<open>n\<close> and the results are
  exactly the matches of the visited directories in that order. For \<open>n = 1\<close>: every
  start directory is processed before any discovered subdirectory. When level \<open>n\<close> is
  empty the search returns these results.
\<close>

theorem breadth_first_order:
  assumes rx: "filenameRegex e cfg = Inr rx"
    and clock: "\<And>k. \<not> now e k - now e 0 > timeoutMsOf cfg"
    and valid: "allValid e cfg rx (visited e cfg (startDirs cfg) n)"
    and cap: "int (length (reported e cfg rx (startDirs cfg) n)) < maxResultsOf cfg"
  shows "findFiles e cfg =
           searchLoop e cfg rx (now e 0) (Suc (length (visited e cfg (startDirs cfg) n)))
             (level e cfg (startDirs cfg) n) (reported e cfg rx (startDirs cfg) n) \<and>
         (level e cfg (startDirs cfg) n = [] \<longrightarrow>
            findFiles e cfg = Some (Inr (reported e cfg rx (startDirs cfg) n)))"
proof -
  have "findFiles e cfg = searchLoop e cfg rx (now e 0) (Suc 0) (startDirs cfg) []"
    by (simp add: findFiles_def rx)
  also have "\<dots> =
      searchLoop e cfg rx (now e 0) (Suc (length (visited e cfg (startDirs cfg) n)))
        (level e cfg (startDirs cfg) n) (reported e cfg rx (startDirs cfg) n)"
    by (rule searchLoop_levels [OF clock valid cap])
  finally show ?thesis by (simp add: searchLoop_Nil)
qed

text \<open>
  The scenario of the claim: the start directories \<open>A\<close> and \<open>B\<close> hold one file and one
  subdirectory with one file each; the two levels are visited in order and the files of
  \<open>A\<close> and \<open>B\<close> are returned before the files below them.
\<close>

theorem breadth_first_order_witness:
  "filenameRegex twoRoots (searchIn [''A'', ''B'']) = Inr None \<and>
   (\<forall>k. \<not> now twoRoots k - now twoRoots 0 > timeoutMsOf (searchIn [''A'', ''B''])) \<and>
   allValid twoRoots (searchIn [''A'', ''B'']) None
     (visited twoRoots (searchIn [''A'', ''B'']) (startDirs (searchIn [''A'', ''B''])) 2) \<and>
   int (length (reported twoRoots (searchIn [''A'', ''B'']) None
          (startDirs (searchIn [''A'', ''B''])) 2))
     < maxResultsOf (searchIn [''A'', ''B'']) \<and>
   visited twoRoots (searchIn [''A'', ''B'']) (startDirs (searchIn [''A'', ''B''])) 2
     = [''A'', ''B'', ''A/sub'', ''B/sub''] \<and>
   level twoRoots (searchIn [''A'', ''B'']) (startDirs (searchIn [''A'', ''B''])) 2 = [] \<and>
   foundPaths (findFiles twoRoots (searchIn [''A'', ''B'']))
     = Some (Inr [''A/a.txt'', ''B/b.txt'', ''A/sub/deep.txt'', ''B/sub/deeper.txt''])"
proof -
  let ?cfg = "searchIn [''A'', ''B'']"
  have rx: "filenameRegex twoRoots ?cfg = Inr None"
    by (simp add: filenameRegex_def searchIn_def)
  have clock: "\<not> now twoRoots k - now twoRoots 0 > timeoutMsOf ?cfg" for k
    by (simp add: twoRoots_def world_simps)
  have valid: "allValid twoRoots ?cfg None (visited twoRoots ?cfg (startDirs ?cfg) 2)"
    by code_simp
  have cap: "int (length (reported twoRoots ?cfg None (startDirs ?cfg) 2)) < maxResultsOf ?cfg"
    by code_simp
  have order: "visited twoRoots ?cfg (startDirs ?cfg) 2 = [''A'', ''B'', ''A/sub'', ''B/sub'']"
    by code_simp
  have last: "level twoRoots ?cfg (startDirs ?cfg) 2 = []"
    by code_simp
  have paths: "map foundPath (reported twoRoots ?cfg None (startDirs ?cfg) 2)
      = [''A/a.txt'', ''B/b.txt'', ''A/sub/deep.txt'', ''B/sub/deeper.txt'']"
    by code_simp
  from breadth_first_order [OF rx clock valid cap] last
  have "findFiles twoRoots ?cfg = Some (Inr (reported twoRoots ?cfg None (startDirs ?cfg) 2))"
    by blast
  then have "foundPaths (findFiles twoRoots ?cfg)
      = Some (Inr [''A/a.txt'', ''B/b.txt'', ''A/sub/deep.txt'', ''B/sub/deeper.txt''])"
    by (simp add: foundPaths_def paths)
  with rx clock valid cap order last show ?thesis by blast
qed

text \<open>
  With a third start directory \<open>C\<close>, its file comes before the files below \<open>A\<close> and
  \<open>B\<close>.
\<close>

lemma three_roots_search:
  "foundPaths (findFiles threeRoots (searchIn [''A'', ''B'', ''C'']))
   = Some (Inr [''A/a.txt'', ''B/b.txt'', ''C/c.txt'', ''A/sub/deep.txt'',
                ''B/sub/deeper.txt''])"
  by (simp add: search_simps threeRoots_def world_simps filter_simps)

text \<open>
  The scenario for any two start directories \<open>A\<close> and \<open>B\<close>, each holding one file and
  one subdirectory (listed in either order) with one file in it, searched recursively
  without filters and without a timeout: the result is the file of \<open>A\<close>, the file of
  \<open>B\<close>, the file under \<open>A\<close>'s subdirectory, the file under \<open>B\<close>'s subdirectory, in
  this order, cut to its first \<open>maxResults\<close> elements.
\<close>

lemma two_roots_scenario:
  assumes dirs: "startDirs cfg = [A, B]" and rec: "recursive cfg"
    and nofilter: "filename cfg = None" "extension cfg = None" "minSize cfg = None"
      "maxSize cfg = None" "createdAfter cfg = None" "createdBefore cfg = None"
      "modifiedAfter cfg = None" "modifiedBefore cfg = None" "contentSearch cfg = None"
      "fileType cfg = None"
    and clock: "\<And>k. \<not> now e k - now e 0 > timeoutMsOf cfg"
    and A: "readdir e A = Some la" "la = [fa, sa] \<or> la = [sa, fa]"
      "stat e (pathJoin e A fa) = Some stfa" "isFile stfa" "\<not> isDirectory stfa"
      "stat e (pathJoin e A sa) = Some stsa" "isDirectory stsa" "\<not> isFile stsa"
      "readdir e (pathJoin e A sa) = Some [ga]"
      "stat e (pathJoin e (pathJoin e A sa) ga) = Some stga" "isFile stga" "\<not> isDirectory stga"
    and B: "readdir e B = Some lb" "lb = [fb, sb] \<or> lb = [sb, fb]"
      "stat e (pathJoin e B fb) = Some stfb" "isFile stfb" "\<not> isDirectory stfb"
      "stat e (pathJoin e B sb) = Some stsb" "isDirectory stsb" "\<not> isFile stsb"
      "readdir e (pathJoin e B sb) = Some [gb]"
      "stat e (pathJoin e (pathJoin e B sb) gb) = Some stgb" "isFile stgb" "\<not> isDirectory stgb"
    and times: "validTimes (fa, pathJoin e A fa, stfa)" "validTimes (fb, pathJoin e B fb, stfb)"
      "validTimes (ga, pathJoin e (pathJoin e A sa) ga, stga)"
      "validTimes (gb, pathJoin e (pathJoin e B sb) gb, stgb)"
  shows "foundPaths (findFiles e cfg) =
         Some (Inr (take (nat (maxResultsOf cfg))
           [pathJoin e A fa, pathJoin e B fb,
            pathJoin e (pathJoin e A sa) ga, pathJoin e (pathJoin e B sb) gb]))"
proof -
  define m where "m = maxResultsOf cfg"
  have matches: "fileMatches e cfg None name p st" for name p st
    by (simp add: fileMatches_conj nofilter skipName_def skipExtension_def skipMinSize_def
        skipMaxSize_def skipAfter_def skipBefore_def skipFileType_def skipContent_def)
  note mk = times [THEN makeFound_valid]
  have pA: "processEntries e cfg None A la (q, r)
            = Inr (q @ [pathJoin e A sa], r @ [recordOf e (fa, pathJoin e A fa, stfa)])" for q r
    using A(2) by (elim disjE) (simp_all add: A(1,3-12) rec matches mk)
  have pB: "processEntries e cfg None B lb (q, r)
            = Inr (q @ [pathJoin e B sb], r @ [recordOf e (fb, pathJoin e B fb, stfb)])" for q r
    using B(2) by (elim disjE) (simp_all add: B(1,3-12) rec matches mk)
  have pAs: "processEntries e cfg None (pathJoin e A sa) [ga] (q, r)
            = Inr (q, r @ [recordOf e (ga, pathJoin e (pathJoin e A sa) ga, stga)])" for q r
    by (simp add: A(1,3-12) matches mk)
  have pBs: "processEntries e cfg None (pathJoin e B sb) [gb] (q, r)
            = Inr (q, r @ [recordOf e (gb, pathJoin e (pathJoin e B sb) gb, stgb)])" for q r
    by (simp add: B(1,3-12) matches mk)
  have step: "searchLoop e cfg None (now e 0) k (d # q) r =
      (if \<not> int (length r) < m then Some (Inr r)
       else (case readdir e d of
               None \<Rightarrow> searchLoop e cfg None (now e 0) (Suc k) q r
             | Some files \<Rightarrow>
                 (case processEntries e cfg None d files (q, r) of
                    Inl err \<Rightarrow> Some (Inl err)
                  | Inr (q', r') \<Rightarrow> searchLoop e cfg None (now e 0) (Suc k) q' r')))" for k d q r
    by (subst searchLoop.simps) (simp add: clock m_def del: maxResultsOf.simps timeoutMsOf.simps)
  have start: "findFiles e cfg = searchLoop e cfg None (now e 0) (Suc 0) [A, B] []"
    by (simp add: findFiles_def filenameRegex_def nofilter dirs)
  consider "m \<le> 0" | "m = 1" | "m = 2" | "m = 3" | "4 \<le> m"
    by linarith
  then have "foundPaths (findFiles e cfg) =
         Some (Inr (take (nat m)
           [pathJoin e A fa, pathJoin e B fb,
            pathJoin e (pathJoin e A sa) ga, pathJoin e (pathJoin e B sb) gb]))"
  proof cases
    case 1
    then show ?thesis
      by (simp add: start step searchLoop_Nil foundPaths_def)
  next
    case 2
    then show ?thesis
      by (simp add: start step searchLoop_Nil foundPaths_def A(1,3-12) B(1,3-12) pA pB pAs pBs
          recordOf_def del: processEntries.simps)
  next
    case 3
    then show ?thesis
      by (simp add: start step searchLoop_Nil foundPaths_def A(1,3-12) B(1,3-12) pA pB pAs pBs
          recordOf_def del: processEntries.simps)
  next
    case 4
    then show ?thesis
      by (simp add: start step searchLoop_Nil foundPaths_def A(1,3-12) B(1,3-12) pA pB pAs pBs
          recordOf_def numeral_3_eq_3 del: processEntries.simps)
  next
    case 5
    then have "nat m \<ge> 4" by simp
    with 5 show ?thesis
      by (simp add: start step searchLoop_Nil foundPaths_def A(1,3-12) B(1,3-12) pA pB pAs pBs
          recordOf_def del: processEntries.simps)
  qed
  then show ?thesis by (simp only: m_def)
qed


end
